theory Spec2Isabelle
  imports Main "HOL-Library.AList"
begin

section \<open>Text and Python values\<close>

text \<open>
  Python strings are modelled as \<open>string\<close> (a list of characters); the model covers ASCII
  input, so the regular-expression classes \<open>\d\<close>, \<open>\w\<close> and \<open>\s\<close> are the ASCII ones.
  A Python \<open>dict\<close> is an association list read with \<open>map_of\<close> and written with
  \<open>AList.update\<close>, which replaces a bound key in place and appends a new key at the end,
  as insertion into a \<open>dict\<close> does.
\<close>

definition is_digit :: "char \<Rightarrow> bool" where
  "is_digit c = (c \<in> set ''0123456789'')"

definition is_alpha :: "char \<Rightarrow> bool" where
  "is_alpha c = (c \<in> set ''abcdefghijklmnopqrstuvwxyzABCDEFGHIJKLMNOPQRSTUVWXYZ'')"

definition is_word :: "char \<Rightarrow> bool" where
  "is_word c = (is_alpha c \<or> is_digit c \<or> c = CHR ''_'')"

definition is_space :: "char \<Rightarrow> bool" where
  "is_space c = (c \<in> set [CHR '' '', CHR 0x09, CHR 0x0A, CHR 0x0B, CHR 0x0C, CHR 0x0D,
                             CHR 0x1C, CHR 0x1D, CHR 0x1E, CHR 0x1F])"

definition digit_char :: "nat \<Rightarrow> char" where
  "digit_char d = ''0123456789'' ! d"

text \<open>\<open>str(i)\<close> for a non-negative integer, as the f-strings \<open>f"{i}"\<close> produce it.\<close>

fun str_nat :: "nat \<Rightarrow> string" where
  "str_nat n = (if n < 10 then [digit_char n] else str_nat (n div 10) @ [digit_char (n mod 10)])"

declare str_nat.simps [simp del]

text \<open>\<open>sep.join(parts)\<close>.\<close>

fun join :: "string \<Rightarrow> string list \<Rightarrow> string" where
  "join sep [] = []"
| "join sep [x] = x"
| "join sep (x # y # ys) = x @ sep @ join sep (y # ys)"

text \<open>\<open>s.strip()\<close> and \<open>s.lstrip('_')\<close>.\<close>

definition strip :: "string \<Rightarrow> string" where
  "strip s = rev (dropWhile is_space (rev (dropWhile is_space s)))"

definition lstrip_underscore :: "string \<Rightarrow> string" where
  "lstrip_underscore s = dropWhile (\<lambda>c. c = CHR ''_'') s"

section \<open>Schema registry and flattening\<close>

text \<open>
  \<open>Field = Tuple[str, str, Optional[List[int]]]\<close>: field name, type name, array dimensions.
  The dimensions are read from \<open>\d+\<close> tokens, so they are natural numbers.
\<close>

type_synonym field = "string \<times> string \<times> nat list option"
type_synonym structs = "(string \<times> field list) list"
type_synonym mapping = "(string \<times> string) list"

text \<open>\<open>normalize_path\<close>: \<open>re.sub(r'\[\d+\]', '', path)\<close>. At a \<open>[\<close> the longest run of
  digits is taken; giving digits back never brings a \<open>]\<close> into reach, so the pattern matches
  there exactly when that run is non-empty and followed by \<open>]\<close>.\<close>

function normalize_path :: "string \<Rightarrow> string" where
  "normalize_path [] = []"
| "normalize_path (c # cs) =
     (if c = CHR ''['' \<and> takeWhile is_digit cs \<noteq> [] then
        (case dropWhile is_digit cs of
           [] \<Rightarrow> c # normalize_path cs
         | d # ds \<Rightarrow> if d = CHR '']'' then normalize_path ds else c # normalize_path cs)
      else c # normalize_path cs)"
  by pat_completeness auto
termination
proof (relation "measure length")
  fix c :: char and cs d ds
  assume "dropWhile is_digit cs = d # ds"
  then have "length (d # ds) \<le> length cs"
    using length_dropWhile_le [of is_digit cs] by simp
  then show "(ds, c # cs) \<in> measure length" by simp
qed auto

text \<open>\<open>explicit_mapping and k in explicit_mapping\<close>, then \<open>explicit_mapping[k]\<close>:
  \<open>None\<close> and the empty dict are both falsy.\<close>

definition mapping_get :: "mapping option \<Rightarrow> string \<Rightarrow> string option" where
  "mapping_get explicit_mapping k =
     (case explicit_mapping of
        None \<Rightarrow> None
      | Some d \<Rightarrow> if d = [] then None else map_of d k)"

definition mapping_has :: "mapping option \<Rightarrow> string \<Rightarrow> bool" where
  "mapping_has explicit_mapping k =
     (case mapping_get explicit_mapping k of None \<Rightarrow> False | Some v \<Rightarrow> True)"

text \<open>\<open>k in d\<close> for a dict \<open>d\<close>.\<close>

definition in_dict :: "('k \<times> 'v) list \<Rightarrow> 'k \<Rightarrow> bool" where
  "in_dict d k = (case map_of d k of None \<Rightarrow> False | Some v \<Rightarrow> True)"

definition full_source_path_of :: "string \<Rightarrow> string \<Rightarrow> string" where
  "full_source_path_of source_prefix field_name =
     (if source_prefix = [] then field_name else source_prefix @ ''.'' @ field_name)"

definition current_output_of :: "mapping option \<Rightarrow> string \<Rightarrow> string \<Rightarrow> string" where
  "current_output_of explicit_mapping norm_path field_name =
     (case mapping_get explicit_mapping norm_path of
        Some v \<Rightarrow> v
      | None \<Rightarrow>
          (case mapping_get explicit_mapping field_name of
             Some v \<Rightarrow> v
           | None \<Rightarrow> field_name))"

definition new_output_prefix_of ::
    "mapping option \<Rightarrow> string \<Rightarrow> string \<Rightarrow> string \<Rightarrow> string" where
  "new_output_prefix_of explicit_mapping norm_path field_name output_prefix =
     (let current_output = current_output_of explicit_mapping norm_path field_name in
      if mapping_has explicit_mapping norm_path \<or> mapping_has explicit_mapping field_name
      then current_output
      else if output_prefix = [] then current_output
      else output_prefix @ ''_'' @ current_output)"

text \<open>The generator \<open>gen_indices(dims, cur='')\<close>, as the list of what it yields.\<close>

fun gen_indices :: "nat list \<Rightarrow> string \<Rightarrow> string list" where
  "gen_indices [] cur = [lstrip_underscore cur]"
| "gen_indices (d # dims) cur =
     concat (map (\<lambda>j. gen_indices dims (cur @ ''_'' @ str_nat j)) [0..<d])"

text \<open>Extending \<open>result\<close> with the lists of a sequence of recursive calls, the first call
  that does not return ending the whole computation.\<close>

definition extend_all :: "'a list option list \<Rightarrow> 'a list option" where
  "extend_all rs = map_option concat (those rs)"

text \<open>
  \<open>flatten_struct_fields\<close>. Python recurses once per level of struct nesting, and a registry
  with a struct that contains itself makes it recurse until the interpreter's recursion limit
  ends the run. The first argument of \<open>flatten_struct_fields\<close> is that bound on the depth;
  \<open>None\<close> is the run that exceeded it.

  \<open>flatten_field\<close> is the body of the loop over the fields; its argument \<open>recurse\<close> is the
  recursive call \<open>self.flatten_struct_fields(structs, _, _, _, explicit_mapping)\<close>.
\<close>

definition flatten_field ::
    "(string \<Rightarrow> string \<Rightarrow> string \<Rightarrow> string list option) \<Rightarrow> structs \<Rightarrow> string \<Rightarrow> string \<Rightarrow>
     mapping option \<Rightarrow> field \<Rightarrow> string list option" where
  "flatten_field recurse structs source_prefix output_prefix explicit_mapping fld =
     (case fld of (field_name, field_type, array_dims) \<Rightarrow>
      let full_source_path = full_source_path_of source_prefix field_name;
          norm_path = normalize_path full_source_path;
          new_output_prefix =
            new_output_prefix_of explicit_mapping norm_path field_name output_prefix
      in
      if in_dict structs field_type then
        (case array_dims of
           None \<Rightarrow> recurse field_type full_source_path new_output_prefix
         | Some dims \<Rightarrow>
             if length dims = 1 then
               extend_all (map (\<lambda>i.
                   recurse field_type
                     (full_source_path @ ''['' @ str_nat i @ '']'')
                     (new_output_prefix @ ''_'' @ str_nat i))
                 [0..<hd dims])
             else
               extend_all (map (\<lambda>idx.
                   recurse field_type
                     (full_source_path @ ''['' @ idx @ '']'')
                     (new_output_prefix @ ''_'' @ idx))
                 (gen_indices dims [])))
      else
        (case array_dims of
           None \<Rightarrow> Some [new_output_prefix]
         | Some dims \<Rightarrow>
             if dims = [] then Some [new_output_prefix]
             else if length dims = 1 then
               Some (map (\<lambda>i. new_output_prefix @ ''_'' @ str_nat i) [0..<hd dims])
             else
               Some (map (\<lambda>idx. new_output_prefix @ ''_'' @ idx) (gen_indices dims []))))"

primrec flatten_struct_fields ::
    "nat \<Rightarrow> structs \<Rightarrow> string \<Rightarrow> string \<Rightarrow> string \<Rightarrow> mapping option \<Rightarrow> string list option"
where
  "flatten_struct_fields 0 structs struct_name source_prefix output_prefix explicit_mapping = None"
| "flatten_struct_fields (Suc depth) structs struct_name source_prefix output_prefix explicit_mapping =
     (case map_of structs struct_name of
        None \<Rightarrow> Some []
      | Some fields \<Rightarrow>
          extend_all (map (flatten_field
                 (\<lambda>t s p. flatten_struct_fields depth structs t s p explicit_mapping)
                 structs source_prefix output_prefix explicit_mapping)
                          fields))"

text \<open>The loop over a list of fields, at nesting depth \<open>depth\<close> below the bound.\<close>

definition flatten_fields ::
    "nat \<Rightarrow> structs \<Rightarrow> string \<Rightarrow> string \<Rightarrow> mapping option \<Rightarrow> field list \<Rightarrow> string list option"
where
  "flatten_fields depth structs source_prefix output_prefix explicit_mapping fields =
     extend_all (map (flatten_field
                 (\<lambda>t s p. flatten_struct_fields depth structs t s p explicit_mapping)
                 structs source_prefix output_prefix explicit_mapping) fields)"

section \<open>Field map\<close>

datatype error = IndexError | TypeError | AttributeError | ValueError | RecursionError

text \<open>A value of the field map: one literal, or the list of literals of an array base.\<close>

datatype fmval = VStr string | VList "string list"

type_synonym field_map = "(string \<times> fmval) list"

text \<open>
  \<open>re.match(r'(.+?)_(\d+)$', field)\<close>, giving \<open>m.group(1)\<close>. The text matched by
  \<open>_(\d+)$\<close> holds one underscore, its first character, so the underscore is the last one of
  the field name; \<open>$\<close> also matches before a newline that ends the string; \<open>.\<close> matches no
  newline and \<open>.+?\<close> at least one character.
\<close>

definition match_index_suffix :: "string \<Rightarrow> string option" where
  "match_index_suffix field =
     (let body = (if field \<noteq> [] \<and> last field = CHR 0x0A then butlast field else field);
          digits = rev (takeWhile (\<lambda>c. c \<noteq> CHR ''_'') (rev body));
          base = take (length body - length digits - 1) body
      in if length digits < length body \<and> digits \<noteq> [] \<and> list_all is_digit digits
            \<and> base \<noteq> [] \<and> list_all (\<lambda>c. c \<noteq> CHR 0x0A) base
         then Some base else None)"

text \<open>The first loop of \<open>generate_field_map\<close>; \<open>index\<close> is the position in \<open>init_values\<close>,
  so the values still to be read are carried instead of it.\<close>

fun field_map_loop ::
    "string list \<Rightarrow> string list \<Rightarrow> field_map \<Rightarrow> (string \<times> string list) list
     \<Rightarrow> field_map \<times> (string \<times> string list) list" where
  "field_map_loop [] init_values result temp_array = (result, temp_array)"
| "field_map_loop (field # field_names) [] result temp_array = (result, temp_array)"
| "field_map_loop (field # field_names) (v # init_values) result temp_array =
     (case match_index_suffix field of
        Some base \<Rightarrow>
          field_map_loop field_names init_values result
            (AList.update base
               ((case map_of temp_array base of None \<Rightarrow> [] | Some vs \<Rightarrow> vs) @ [v]) temp_array)
      | None \<Rightarrow>
          field_map_loop field_names init_values (AList.update field (VStr v) result) temp_array)"

definition generate_field_map :: "string list \<Rightarrow> string list \<Rightarrow> field_map" where
  "generate_field_map field_names init_values =
     (case field_map_loop field_names init_values [] [] of
        (result, temp_array) \<Rightarrow>
          fold (\<lambda>(base, values) result. AList.update base (VList values) result)
            temp_array result)"

section \<open>View tree and generator\<close>

text \<open>The view tree is a Python value: a \<open>str\<close> (a leaf, the type name), a \<open>dict\<close> from
  field names to subtrees, or the dict \<open>{"array": size, "fields": subtree}\<close>, whose size is
  an \<open>int\<close>.\<close>

datatype pyval = PStr string | PInt nat | PDict "(string \<times> pyval) list"

fun view_tree_loop ::
    "(string \<Rightarrow> pyval option) \<Rightarrow> structs \<Rightarrow> field list \<Rightarrow> (string \<times> pyval) list \<Rightarrow> pyval option"
where
  "view_tree_loop recurse view_defs [] tree = Some (PDict tree)"
| "view_tree_loop recurse view_defs (fld # fields) tree =
     (case fld of (field_name, field_type, array_dims) \<Rightarrow>
       (case (if in_dict view_defs field_type then recurse field_type
              else Some (PStr field_type)) of
          None \<Rightarrow> None
        | Some subtree \<Rightarrow>
            view_tree_loop recurse view_defs fields
              (AList.update field_name
                 (case array_dims of
                    None \<Rightarrow> subtree
                  | Some dims \<Rightarrow>
                      PDict [(''array'', PInt (if length dims \<ge> 1 then hd dims else 1)),
                             (''fields'', subtree)])
                 tree)))"

primrec build_view_tree :: "nat \<Rightarrow> structs \<Rightarrow> string \<Rightarrow> pyval option" where
  "build_view_tree 0 view_defs struct_name = None"
| "build_view_tree (Suc depth) view_defs struct_name =
     (case map_of view_defs struct_name of
        None \<Rightarrow> Some (PStr struct_name)
      | Some fields \<Rightarrow> view_tree_loop (build_view_tree depth view_defs) view_defs fields [])"

text \<open>\<open>sep.join(parts)\<close> on values of the field map: a list among them is a \<open>TypeError\<close>.\<close>

fun strs_of :: "fmval list \<Rightarrow> string list option" where
  "strs_of [] = Some []"
| "strs_of (VStr s # vs) = map_option (Cons s) (strs_of vs)"
| "strs_of (VList l # vs) = None"

definition join_values :: "string \<Rightarrow> fmval list \<Rightarrow> error + string" where
  "join_values sep parts =
     (case strs_of parts of None \<Rightarrow> Inl TypeError | Some ss \<Rightarrow> Inr (join sep ss))"

text \<open>The results of the iterations of a loop, up to the first that raises.\<close>

fun collect :: "(error + 'a) list \<Rightarrow> error + 'a list" where
  "collect [] = Inr []"
| "collect (Inl e # rs) = Inl e"
| "collect (Inr x # rs) = (case collect rs of Inl e \<Rightarrow> Inl e | Inr xs \<Rightarrow> Inr (x # xs))"

definition braces :: "error + string \<Rightarrow> error + fmval" where
  "braces r = (case r of Inl e \<Rightarrow> Inl e | Inr s \<Rightarrow> Inr (VStr (''{'' @ s @ ''}'')))"

lemma size_member_pyval:
  "(k, v) \<in> set d \<Longrightarrow> size v < size_list (size_prod (\<lambda>_. 0) size) d"
  by (induction d) auto

lemma size_map_of_pyval:
  "map_of d k = Some v \<Longrightarrow> size v < size_list (size_prod (\<lambda>_. 0) size) d"
  by (rule size_member_pyval [of k]) (rule map_of_SomeD)

lemma size_fields_pyval:
  assumes "x \<in> set view_tree" "(key, y) = x" "y = PDict d" "map_of d k = Some f"
  shows "size f < Suc (size_list (size_prod (\<lambda>_. 0) size) view_tree)"
  using assms size_member_pyval [of key "PDict d" view_tree] size_map_of_pyval [of d k f]
  by auto

function generate_nested_initializer :: "pyval \<Rightarrow> field_map \<Rightarrow> string \<Rightarrow> error + fmval" where
  "generate_nested_initializer (PStr t) field_map prefix =
     Inr (case map_of field_map prefix of None \<Rightarrow> VStr ''0'' | Some v \<Rightarrow> v)"
| "generate_nested_initializer (PInt n) field_map prefix = Inr (VStr ''0'')"
| "generate_nested_initializer (PDict view_tree) field_map prefix =
     (case collect (map (\<lambda>(key, sub).
         let full_key = (if prefix = [] then key else prefix @ ''_'' @ key) in
         case sub of
           PDict d \<Rightarrow>
             (if in_dict d ''array'' \<and> in_dict d ''fields'' then
                (case map_of d ''array'' of
                   Some (PInt array_size) \<Rightarrow>
                     (case map_of d ''fields'' of
                        Some fields \<Rightarrow>
                          (case collect (map (\<lambda>i.
                              let elem_key = full_key @ ''_'' @ str_nat i in
                              case map_of field_map elem_key of
                                Some v \<Rightarrow> Inr v
                              | None \<Rightarrow> generate_nested_initializer fields field_map elem_key)
                            [0..<array_size]) of
                             Inl e \<Rightarrow> Inl e
                           | Inr elems \<Rightarrow> braces (join_values '', '' elems))
                      | None \<Rightarrow> Inl TypeError)
                 | _ \<Rightarrow> Inl TypeError)
              else
                (case map_of field_map full_key of
                   Some v \<Rightarrow> Inr v
                 | None \<Rightarrow> generate_nested_initializer sub field_map full_key))
         | _ \<Rightarrow>
             (case map_of field_map full_key of
                Some v \<Rightarrow> Inr v
              | None \<Rightarrow> generate_nested_initializer sub field_map full_key)) view_tree) of
        Inl e \<Rightarrow> Inl e
      | Inr parts \<Rightarrow> braces (join_values '', '' parts))"
  by pat_completeness auto
termination
proof (relation "measure (\<lambda>(t, fm, p). size t)", goal_cases)
  case 1
  show ?case by simp
next
  case 2
  then show ?case
    by (fastforce dest: size_member_pyval)
next
  case 3
  then show ?case
    by (fastforce dest: size_member_pyval)
next
  case 4
  from size_fields_pyval [OF 4(1,2,4,8)] show ?case
    by simp
next
  case 5
  then show ?case
    by (fastforce dest: size_member_pyval)
qed

section \<open>Lexer\<close>

datatype token_type =
  STRING | NUMBER | ID | LBRACE | RBRACE | LBRACKET | RBRACKET | SEMICOLON | COMMA
  | LPAREN | RPAREN | ASSIGN | DOT | OTHER

datatype token = Token (ttype: token_type) (tvalue: string)

text \<open>
  The rest of a \<open>STRING\<close>, \<open>(?:\\.|[^"\\])*"\<close>, after its opening quote: the matched text and
  what follows it. An escape is a backslash and any character but a newline; no shorter run
  of the repetition ends before a quote, so the greedy scan decides the match.
\<close>

fun scan_string :: "string \<Rightarrow> (string \<times> string) option" where
  "scan_string [] = None"
| "scan_string [c] = (if c = CHR 0x22 then Some ([c], []) else None)"
| "scan_string (c # d # cs) =
     (if c = CHR 0x22 then Some ([c], d # cs)
      else if c = CHR 0x5C then
        (if d = CHR 0x0A then None
         else map_option (\<lambda>(m, r). (c # d # m, r)) (scan_string cs))
      else map_option (\<lambda>(m, r). (c # m, r)) (scan_string (d # cs)))"

definition punctuation :: "char \<Rightarrow> token_type option" where
  "punctuation c =
     map_of [(CHR ''{'', LBRACE), (CHR ''}'', RBRACE), (CHR ''['', LBRACKET), (CHR '']'', RBRACKET),
             (CHR '';'', SEMICOLON), (CHR '','', COMMA), (CHR ''('', LPAREN), (CHR '')'', RPAREN),
             (CHR ''='', ASSIGN), (CHR ''.'', DOT)] c"

text \<open>
  One step of \<open>re.finditer(tok_regex, text)\<close> at a text that starts with \<open>c\<close>: the token
  appended, if any, and the text after the match. The alternatives start with different
  characters, so the first character selects the one that matches. A match of \<open>OTHER\<close> is never
  appended (an underscore is an \<open>ID\<close>), and where nothing matches (a newline, which \<open>.\<close>
  excludes) the scan moves one character on.
\<close>

definition next_token :: "char \<Rightarrow> string \<Rightarrow> token option \<times> string" where
  "next_token c cs =
     (if c = CHR 0x22 then
        (case scan_string cs of
           Some (body, rest) \<Rightarrow> (Some (Token STRING (c # body)), rest)
         | None \<Rightarrow> (None, cs))
      else if is_digit c then
        (let ds = takeWhile is_digit cs; r = dropWhile is_digit cs in
         case r of
           [] \<Rightarrow> (Some (Token NUMBER (c # ds)), [])
         | d # r' \<Rightarrow>
             if d = CHR ''.''
             then (Some (Token NUMBER (c # ds @ d # takeWhile is_digit r')), dropWhile is_digit r')
             else (Some (Token NUMBER (c # ds)), r))
      else if is_alpha c \<or> c = CHR ''_'' then
        (Some (Token ID (c # takeWhile is_word cs)), dropWhile is_word cs)
      else
        (case punctuation c of
           Some kind \<Rightarrow> (Some (Token kind [c]), cs)
         | None \<Rightarrow> (None, cs)))"

lemma scan_string_length: "scan_string cs = Some (m, r) \<Longrightarrow> length r \<le> length cs"
proof (induction cs arbitrary: m r rule: scan_string.induct)
  case 1
  then show ?case by simp
next
  case (2 c)
  then show ?case by (simp split: if_splits)
next
  case (3 c d cs)
  then show ?case by (fastforce split: if_splits)
qed

lemma next_token_length: "next_token c cs = (tok, rest) \<Longrightarrow> length rest \<le> length cs"
proof -
  have dw: "length (dropWhile P xs) \<le> length xs" for P and xs :: string
    by (rule length_dropWhile_le)
  have dw2: "dropWhile P xs = d # r \<Longrightarrow> length (dropWhile Q r) \<le> length xs"
    for P Q d r and xs :: string
    using dw [of P xs] dw [of Q r] by simp
  assume "next_token c cs = (tok, rest)"
  then show ?thesis
    unfolding next_token_def Let_def
    by (auto split: if_splits option.splits list.splits
        dest: scan_string_length dw2 [where Q = is_digit]
        intro: dw order_trans [OF _ dw [of is_digit cs]])
qed

function tokenize :: "string \<Rightarrow> token list" where
  "tokenize [] = []"
| "tokenize (c # cs) =
     (case next_token c cs of
        (None, rest) \<Rightarrow> tokenize rest
      | (Some t, rest) \<Rightarrow> t # tokenize rest)"
  by pat_completeness auto
termination
  by (relation "measure length") (auto dest: next_token_length [OF sym] simp: less_Suc_eq_le)

section \<open>Parser of the full schema\<close>

text \<open>\<open>int(float(value))\<close> of a \<open>NUMBER\<close> token \<open>\d+(\.\d*)?\<close>: the number before the
  point (the conversion is exact below \<open>2^53\<close>; the model has no rounding).\<close>

definition nat_of_digits :: "string \<Rightarrow> nat" where
  "nat_of_digits ds = foldl (\<lambda>n c. 10 * n + (of_char c - 48)) 0 ds"

definition int_float :: "string \<Rightarrow> nat" where
  "int_float v = nat_of_digits (takeWhile is_digit v)"

text \<open>The loop that takes the trailing \<open>[n]\<close> groups off \<open>field_tokens\<close>, on the reversed list:
  \<open>field_tokens[-1]\<close> is the head.\<close>

fun strip_dims :: "token list \<Rightarrow> nat list \<Rightarrow> token list \<times> nat list" where
  "strip_dims (r # n # l # rest) array_dims =
     (if ttype l = LBRACKET \<and> ttype n = NUMBER \<and> ttype r = RBRACKET
      then strip_dims rest (int_float (tvalue n) # array_dims)
      else (r # n # l # rest, array_dims))"
| "strip_dims rev_tokens array_dims = (rev_tokens, array_dims)"

text \<open>A non-empty field statement: \<open>field_tokens[-1]\<close> raises \<open>IndexError\<close> when the dimensions
  were the whole statement.\<close>

definition parse_field :: "token list \<Rightarrow> error + field" where
  "parse_field field_tokens =
     (case strip_dims (rev field_tokens) [] of
        ([], array_dims) \<Rightarrow> Inl IndexError
      | (name_token # rev_type_tokens, array_dims) \<Rightarrow>
          Inr (tvalue name_token,
               strip (join '' '' (map tvalue (rev rev_type_tokens))),
               if array_dims = [] then None else Some array_dims))"

text \<open>The loop over the field statements of one body; it returns the fields and the
  tokens from \<open>pos\<close> on.\<close>

function parse_fields :: "token list \<Rightarrow> field list \<Rightarrow> error + (field list \<times> token list)" where
  "parse_fields [] fields = Inr (fields, [])"
| "parse_fields (t # ts) fields =
     (if ttype t = RBRACE then Inr (fields, t # ts)
      else
        (let field_tokens = takeWhile (\<lambda>u. ttype u \<noteq> SEMICOLON) (t # ts);
             rest = drop 1 (dropWhile (\<lambda>u. ttype u \<noteq> SEMICOLON) (t # ts))
         in if field_tokens = [] then parse_fields rest fields
            else (case parse_field field_tokens of
                    Inl e \<Rightarrow> Inl e
                  | Inr f \<Rightarrow> parse_fields rest (fields @ [f]))))"
  by pat_completeness auto
termination
proof (relation "measure (\<lambda>(ts, fields). length ts)", goal_cases)
  case 1
  show ?case by simp
next
  case (2 t ts fields field_tokens rest)
  then show ?case
    using length_dropWhile_le [of "\<lambda>u. ttype u \<noteq> SEMICOLON" ts]
    by (auto split: if_splits)
next
  case (3 t ts fields field_tokens rest f)
  then show ?case
    using length_dropWhile_le [of "\<lambda>u. ttype u \<noteq> SEMICOLON" ts]
    by (auto split: if_splits)
qed

text \<open>After the fields: an optional \<open>}\<close>, then the struct name, which must be an \<open>ID\<close>, and
  an optional \<open>;\<close>.\<close>

definition close_struct :: "token list \<Rightarrow> (string \<times> token list) option" where
  "close_struct rest =
     (case (case rest of [] \<Rightarrow> [] | t # ts \<Rightarrow> if ttype t = RBRACE then ts else t # ts) of
        [] \<Rightarrow> None
      | n # ts \<Rightarrow>
          if ttype n = ID then
            Some (tvalue n,
                  (case ts of [] \<Rightarrow> [] | s # ts' \<Rightarrow> if ttype s = SEMICOLON then ts' else s # ts'))
          else None)"

lemma parse_fields_length:
  "parse_fields ts fields = Inr (fs, rest) \<Longrightarrow> length rest \<le> length ts"
proof (induction ts fields arbitrary: fs rest rule: parse_fields.induct)
  case (1 fields)
  then show ?case by simp
next
  case (2 t ts fields)
  have le: "length (drop 1 (dropWhile (\<lambda>u. ttype u \<noteq> SEMICOLON) (t # ts))) \<le> length (t # ts)"
    using length_dropWhile_le [of "\<lambda>u. ttype u \<noteq> SEMICOLON" "t # ts"] by simp
  show ?case
  proof (cases "ttype t = RBRACE")
    case True
    with 2 show ?thesis by simp
  next
    case False
    show ?thesis
    proof (cases "takeWhile (\<lambda>u. ttype u \<noteq> SEMICOLON) (t # ts) = []")
      case True
      with False 2(1) [OF False refl refl True] 2(3) le show ?thesis
        by (simp add: Let_def split: if_splits) 
    next
      case nonempty: False
      show ?thesis
      proof (cases "parse_field (takeWhile (\<lambda>u. ttype u \<noteq> SEMICOLON) (t # ts))")
        case (Inl e)
        with False nonempty 2(3) show ?thesis by (simp add: Let_def split: if_splits)
      next
        case (Inr f)
        with False nonempty 2(2) [OF False refl refl nonempty Inr] 2(3) le show ?thesis
          by (simp add: Let_def split: if_splits)
      qed
    qed
  qed
qed

lemma close_struct_length: "close_struct rest = Some (n, rest') \<Longrightarrow> length rest' < length rest"
  unfolding close_struct_def by (auto split: list.splits if_splits)

function parse_structs_loop :: "token list \<Rightarrow> structs \<Rightarrow> error + structs" where
  "parse_structs_loop [] structs = Inr structs"
| "parse_structs_loop (t # ts) structs =
     (if ttype t = ID \<and> tvalue t = ''typedef'' then
        (case ts of
           [] \<Rightarrow> Inr structs
         | u # us \<Rightarrow>
             if ttype u = ID \<and> tvalue u = ''struct'' then
               (case us of
                  [] \<Rightarrow> Inr structs
                | v # vs \<Rightarrow>
                    if ttype v = LBRACE then
                      (case parse_fields vs [] of
                         Inl e \<Rightarrow> Inl e
                       | Inr (fields, rest) \<Rightarrow>
                           (case close_struct rest of
                              None \<Rightarrow> Inl ValueError
                            | Some (struct_name, rest') \<Rightarrow>
                                parse_structs_loop rest'
                                  (AList.update struct_name fields structs)))
                    else parse_structs_loop vs structs)
             else parse_structs_loop us structs)
      else parse_structs_loop ts structs)"
  by pat_completeness auto
termination
  by (relation "measure (\<lambda>(ts, structs). length ts)")
     (auto dest!: parse_fields_length close_struct_length)

definition parse_typedef_structs :: "token list \<Rightarrow> error + structs" where
  "parse_typedef_structs tokens = parse_structs_loop tokens []"

section \<open>Parser of initializers\<close>

text \<open>A parsed initializer, \<open>Union[List, str]\<close>.\<close>

datatype lit = LStr string | LList "lit list"

text \<open>\<open>re.sub(r'//.*?\n|/\*.*?\*/', '', init_text, flags=re.S)\<close>: a line comment is removed
  with the newline that ends it, and only if there is one; a block comment up to the first
  \<open>*/\<close> after its opening.\<close>

definition after_newline :: "string \<Rightarrow> string option" where
  "after_newline cs =
     (case dropWhile (\<lambda>c. c \<noteq> CHR 0x0A) cs of [] \<Rightarrow> None | c # r \<Rightarrow> Some r)"

fun after_close :: "string \<Rightarrow> string option" where
  "after_close (a # b # r) =
     (if a = CHR ''*'' \<and> b = CHR ''/'' then Some r else after_close (b # r))"
| "after_close cs = None"

lemma after_newline_length: "after_newline cs = Some r \<Longrightarrow> length r < Suc (length cs)"
  using length_dropWhile_le [of "\<lambda>c. c \<noteq> CHR 0x0A" cs]
  by (auto simp: after_newline_def split: list.splits)

lemma after_close_length: "after_close cs = Some r \<Longrightarrow> length r < Suc (length cs)"
  by (induction cs arbitrary: r rule: after_close.induct) (auto split: if_splits)

function strip_comments :: "string \<Rightarrow> string" where
  "strip_comments [] = []"
| "strip_comments [c] = [c]"
| "strip_comments (c # d # cs) =
     (if c = CHR ''/'' \<and> d = CHR ''/'' then
        (case after_newline cs of
           Some r \<Rightarrow> strip_comments r
         | None \<Rightarrow> c # strip_comments (d # cs))
      else if c = CHR ''/'' \<and> d = CHR ''*'' then
        (case after_close cs of
           Some r \<Rightarrow> strip_comments r
         | None \<Rightarrow> c # strip_comments (d # cs))
      else c # strip_comments (d # cs))"
  by pat_completeness auto
termination
  by (relation "measure length")
     (auto dest: after_newline_length after_close_length)

text \<open>
  \<open>parse_block\<close> after an opening brace: the \<open>while\<close> loop and the closing brace, giving
  \<open>result\<close> and the tokens from \<open>pos\<close> on. At a \<open>{\<close> the loop calls \<open>parse_block\<close>, which
  takes this same path for the tokens after it.
\<close>

function parse_items :: "token list \<Rightarrow> lit list \<times> token list" where
  "parse_items [] = ([], [])"
| "parse_items (t # ts) =
     (if ttype t = RBRACE then ([], ts)
      else if ttype t = LBRACE then
        (case parse_items ts of
           (sub, rest) \<Rightarrow>
             (case parse_items rest of
                (result, rest') \<Rightarrow> (LList sub # result, rest')))
      else if ttype t = NUMBER \<or> ttype t = ID \<or> ttype t = DOT \<or> ttype t = STRING then
        (case parse_items ts of (result, rest) \<Rightarrow> (LStr (tvalue t) # result, rest))
      else parse_items ts)"
  by pat_completeness auto

lemma parse_items_length:
  "parse_items_dom ts \<Longrightarrow> length (snd (parse_items ts)) \<le> length ts"
  by (induction ts rule: parse_items.pinduct)
     (auto simp: parse_items.psimps split: prod.splits if_splits)

termination parse_items
proof (relation "measure length", goal_cases)
  case 3
  from 3(3) [symmetric] parse_items_length [OF 3(4)] show ?case
    by simp
qed simp_all

definition parse_block :: "token list \<Rightarrow> error + (lit \<times> token list)" where
  "parse_block tokens =
     (case tokens of
        [] \<Rightarrow> Inl IndexError
      | t # ts \<Rightarrow>
          if ttype t = LBRACE
          then (case parse_items ts of (result, rest) \<Rightarrow> Inr (LList result, rest))
          else Inr (LStr (tvalue t), ts))"

definition parse_initialization :: "string \<Rightarrow> error + lit" where
  "parse_initialization init_text =
     (case parse_block (tokenize (strip_comments init_text)) of
        Inl e \<Rightarrow> Inl e
      | Inr (parsed, rest) \<Rightarrow> Inr parsed)"

fun flatten_initialization :: "lit \<Rightarrow> string list" where
  "flatten_initialization (LList init_structure) =
     concat (map flatten_initialization init_structure)"
| "flatten_initialization (LStr init_structure) = [init_structure]"

section \<open>The processor and one initializer block\<close>

text \<open>
  The object \<open>self\<close>. The files it names are outside the model: \<open>header_file\<close>, \<open>view_file\<close>
  and \<open>mapping_file\<close> hold what the files contain (no mapping file is \<open>None\<close>). The
  attributes \<open>prefix\<close>, \<open>var_nameSrc\<close>, \<open>array_size\<close> and \<open>init_block\<close> are not set by
  \<open>__init__\<close> but by \<open>extract_declaration_info\<close>: \<open>None\<close> is the attribute that does not
  exist yet, and \<open>array_size\<close>, once set, is \<open>None\<close> or a string.
\<close>

record destructor =
  header_file :: string
  view_file :: string
  init_text :: string
  target_struct :: string
  target_view :: string
  mapping_file :: "string option"
  specifier :: string
  structs :: structs
  view_defs :: structs
  view_tree :: pyval
  explicit_mapping :: mapping
  flat_fields :: "string list"
  postfix :: string
  prefix :: "string option"
  var_nameSrc :: "string option"
  array_size :: "string option option"
  init_block :: "string option"

definition C_deStructor ::
    "string \<Rightarrow> string \<Rightarrow> string \<Rightarrow> string \<Rightarrow> string \<Rightarrow> string option \<Rightarrow> string \<Rightarrow> destructor" where
  "C_deStructor header view init target_s target_v mapping spec =
     \<lparr> header_file = header, view_file = view, init_text = init, target_struct = target_s,
       target_view = target_v, mapping_file = mapping, specifier = spec,
       structs = [], view_defs = [], view_tree = PDict [], explicit_mapping = [],
       flat_fields = [], postfix = [],
       prefix = None, var_nameSrc = None, array_size = None, init_block = None \<rparr>"

text \<open>The flattened schema of \<open>self\<close>, as \<open>check_structure_type\<close> and \<open>process_structure\<close>
  both compute it; \<open>limit\<close> is the interpreter's bound on the recursion depth.\<close>

definition flat_schema :: "nat \<Rightarrow> destructor \<Rightarrow> string list option" where
  "flat_schema limit self =
     flatten_struct_fields limit (structs self) (target_struct self) [] []
       (Some (explicit_mapping self))"

definition check_structure_type :: "nat \<Rightarrow> destructor \<Rightarrow> string list \<Rightarrow> error + bool" where
  "check_structure_type limit self flat_values =
     (case flat_schema limit self of
        None \<Rightarrow> Inl RecursionError
      | Some names \<Rightarrow>
          if length flat_values < length names then Inr False else Inr True)"

text \<open>What both branches of \<open>process_structure\<close> do with one instance that passed the check:
  the rendered initializer and \<open>self\<close> with \<open>flat_fields\<close> set.\<close>

definition render_instance ::
    "nat \<Rightarrow> destructor \<Rightarrow> string list \<Rightarrow> error + (fmval \<times> destructor)" where
  "render_instance limit self flat_values =
     (case flat_schema limit self of
        None \<Rightarrow> Inl RecursionError
      | Some names \<Rightarrow>
          (let self' = self\<lparr>flat_fields := names\<rparr>;
               field_map = generate_field_map (flat_fields self') flat_values
           in case generate_nested_initializer (view_tree self') field_map [] of
                Inl e \<Rightarrow> Inl e
              | Inr r \<Rightarrow> Inr (r, self')))"

text \<open>The loop over the elements of an array of structures.\<close>

fun process_items ::
    "nat \<Rightarrow> destructor \<Rightarrow> lit list \<Rightarrow> fmval list \<Rightarrow> error + (fmval list \<times> destructor)" where
  "process_items limit self [] result_items = Inr (result_items, self)"
| "process_items limit self (item # parsed) result_items =
     (case check_structure_type limit self (flatten_initialization item) of
        Inl e \<Rightarrow> Inl e
      | Inr ok \<Rightarrow>
          if \<not> ok then process_items limit self parsed result_items
          else
            (case render_instance limit self (flatten_initialization item) of
               Inl e \<Rightarrow> Inl e
             | Inr (r, self') \<Rightarrow> process_items limit self' parsed (result_items @ [r])))"

text \<open>\<open>isinstance(parsed, list) and parsed and isinstance(parsed[0], list)\<close>.\<close>

fun array_of_structures :: "lit \<Rightarrow> bool" where
  "array_of_structures (LList (LList first # rest)) = True"
| "array_of_structures parsed = False"

definition wrap_items :: "error + (fmval list \<times> destructor) \<Rightarrow> error + (fmval \<times> destructor)" where
  "wrap_items r =
     (case r of
        Inl e \<Rightarrow> Inl e
      | Inr (result_items, self') \<Rightarrow>
          (case join_values [CHR '','', CHR 0x0A] result_items of
             Inl e \<Rightarrow> Inl e
           | Inr s \<Rightarrow> Inr (VStr ([CHR ''{'', CHR 0x0A] @ s @ [CHR 0x0A, CHR ''}'']), self')))"

definition process_structure ::
    "nat \<Rightarrow> destructor \<Rightarrow> string \<Rightarrow> error + (fmval \<times> destructor)" where
  "process_structure limit self block =
     (case parse_initialization block of
        Inl e \<Rightarrow> Inl e
      | Inr parsed \<Rightarrow>
          if array_of_structures parsed then
            (case parsed of
               LList items \<Rightarrow> wrap_items (process_items limit self items [])
             | LStr s \<Rightarrow> Inl TypeError)
          else
            (case check_structure_type limit self (flatten_initialization parsed) of
               Inl e \<Rightarrow> Inl e
             | Inr ok \<Rightarrow>
                 if \<not> ok then Inr (VStr [], self)
                 else render_instance limit self (flatten_initialization parsed)))"

section \<open>Regular expressions with backtracking\<close>

text \<open>
  The patterns of \<open>parse_view_structs\<close> and \<open>extract_declaration_info\<close> nest repetitions, so
  what they match depends on the order in which \<open>re\<close> tries the alternatives. They are run
  on a matcher that tries them in that order: a greedy repetition tries one more iteration
  before it continues, a lazy one continues before it tries one more, and the first way
  to match the whole pattern is the match.

  A matcher state is the text before the position (reversed), the text from the position
  on, and the groups matched so far.
\<close>

datatype mstate = MState (consumed: string) (remaining: string) (captures: "(string \<times> string) list")

datatype regex =
    Cls "char \<Rightarrow> bool"
  | Eps
  | Seq regex regex
  | Star regex
  | LazyStar regex
  | Opt regex
  | Bol
  | Grp string regex

text \<open>A repetition: every iteration of the patterns below takes at least one character, so
  the number of characters left bounds the number of iterations.\<close>

primrec star_loop ::
    "((mstate \<Rightarrow> mstate option) \<Rightarrow> mstate \<Rightarrow> mstate option) \<Rightarrow> bool \<Rightarrow> nat
     \<Rightarrow> (mstate \<Rightarrow> mstate option) \<Rightarrow> mstate \<Rightarrow> mstate option" where
  "star_loop body greedy 0 k s = k s"
| "star_loop body greedy (Suc n) k s =
     (if greedy then
        (case body (\<lambda>s'. if length (remaining s') < length (remaining s)
                         then star_loop body greedy n k s' else None) s of
           Some r \<Rightarrow> Some r
         | None \<Rightarrow> k s)
      else
        (case k s of
           Some r \<Rightarrow> Some r
         | None \<Rightarrow>
             body (\<lambda>s'. if length (remaining s') < length (remaining s)
                        then star_loop body greedy n k s' else None) s))"

text \<open>\<open>rmatch r k s\<close>: match \<open>r\<close> at \<open>s\<close> and continue with \<open>k\<close>; \<open>Bol\<close> is \<open>^\<close> under
  \<open>re.M\<close>.\<close>

primrec rmatch :: "regex \<Rightarrow> (mstate \<Rightarrow> mstate option) \<Rightarrow> mstate \<Rightarrow> mstate option" where
  "rmatch (Cls P) k s =
     (case remaining s of
        [] \<Rightarrow> None
      | c # cs \<Rightarrow> if P c then k (MState (c # consumed s) cs (captures s)) else None)"
| "rmatch Eps k s = k s"
| "rmatch (Seq a b) k s = rmatch a (rmatch b k) s"
| "rmatch (Star a) k s = star_loop (rmatch a) True (length (remaining s)) k s"
| "rmatch (LazyStar a) k s = star_loop (rmatch a) False (length (remaining s)) k s"
| "rmatch (Opt a) k s = (case rmatch a k s of Some r \<Rightarrow> Some r | None \<Rightarrow> k s)"
| "rmatch Bol k s =
     (case consumed s of
        [] \<Rightarrow> k s
      | c # cs \<Rightarrow> if c = CHR 0x0A then k s else None)"
| "rmatch (Grp name a) k s =
     rmatch a (\<lambda>s'. k (MState (consumed s') (remaining s')
                  (AList.update name
                     (rev (take (length (consumed s') - length (consumed s)) (consumed s')))
                     (captures s')))) s"

definition Chr :: "char \<Rightarrow> regex" where
  "Chr c = Cls (\<lambda>x. x = c)"

definition Plus :: "regex \<Rightarrow> regex" where
  "Plus r = Seq r (Star r)"

definition seq :: "regex list \<Rightarrow> regex" where
  "seq rs = foldr Seq rs Eps"

definition Lit :: "string \<Rightarrow> regex" where
  "Lit s = seq (map Chr s)"

text \<open>\<open>re.search\<close>: the first position, from the left, where the pattern matches.\<close>

function re_search :: "regex \<Rightarrow> mstate \<Rightarrow> mstate option" where
  "re_search r s =
     (case rmatch r Some (MState (consumed s) (remaining s) []) of
        Some m \<Rightarrow> Some m
      | None \<Rightarrow>
          (case remaining s of
             [] \<Rightarrow> None
           | c # cs \<Rightarrow> re_search r (MState (c # consumed s) cs [])))"
  by pat_completeness auto
termination
  by (relation "measure (\<lambda>(r, s). length (remaining s))") auto

text \<open>The pattern of \<open>extract_declaration_info\<close>, with \<open>re.S | re.M\<close>:
  \<open>^(?P<spec>(?:\w+\s+)*)\<close>, the escaped \<open>target_struct\<close>,
  \<open>\s+(?P<var>\w+)\s*(\[\s*(?P<size>\d*)\s*\])?\s*=\s*(?P<init>\{.*?\})\s*;\<close>.\<close>

definition declaration_pattern :: "string \<Rightarrow> regex" where
  "declaration_pattern target =
     seq [Bol,
          Grp ''spec'' (Star (Seq (Plus (Cls is_word)) (Plus (Cls is_space)))),
          Lit target,
          Plus (Cls is_space),
          Grp ''var'' (Plus (Cls is_word)),
          Star (Cls is_space),
          Opt (Grp ''3'' (seq [Chr (CHR ''[''), Star (Cls is_space),
                               Grp ''size'' (Star (Cls is_digit)),
                               Star (Cls is_space), Chr (CHR '']'')])),
          Star (Cls is_space),
          Chr (CHR ''=''),
          Star (Cls is_space),
          Grp ''init'' (seq [Chr (CHR ''{''), LazyStar (Cls (\<lambda>c. True)), Chr (CHR ''}'')]),
          Star (Cls is_space),
          Chr (CHR '';'')]"

section \<open>Loading the view schema and the mapping\<close>

text \<open>A match never ends before the position it was started at.\<close>

lemma star_loop_shrinks:
  assumes body: "\<And>k s m. (\<And>s' m'. k s' = Some m' \<Longrightarrow> length (remaining m') \<le> length (remaining s'))
                   \<Longrightarrow> body k s = Some m \<Longrightarrow> length (remaining m) \<le> length (remaining s)"
    and k: "\<And>s m. k s = Some m \<Longrightarrow> length (remaining m) \<le> length (remaining s)"
  shows "star_loop body greedy n k s = Some m \<Longrightarrow> length (remaining m) \<le> length (remaining s)"
proof (induction n arbitrary: s m)
  case 0
  then show ?case using k by simp
next
  case (Suc n)
  let ?again = "\<lambda>s'. if length (remaining s') < length (remaining s)
                     then star_loop body greedy n k s' else None"
  have again: "length (remaining m') \<le> length (remaining s')" if "?again s' = Some m'" for s' m'
    using that Suc.IH [of s' m'] by (simp split: if_splits)
  from Suc.prems have "body ?again s = Some m \<or> k s = Some m"
    by (auto split: if_splits option.splits)
  then show ?case
    using body [of ?again s m, OF again] k [of s m] by blast
qed

lemma rmatch_shrinks:
  assumes "\<And>s m. k s = Some m \<Longrightarrow> length (remaining m) \<le> length (remaining s)"
  shows "rmatch r k s = Some m \<Longrightarrow> length (remaining m) \<le> length (remaining s)"
  using assms
proof (induction r arbitrary: k s m)
  case (Cls P)
  from Cls.prems(1) obtain c cs where s: "remaining s = c # cs"
    and m: "k (MState (c # consumed s) cs (captures s)) = Some m"
    by (auto split: list.splits if_splits)
  from Cls.prems(2) [OF m] s show ?case by simp
next
  case Eps
  then show ?case by simp
next
  case (Seq a b)
  have "length (remaining m') \<le> length (remaining s')" if "rmatch b k s' = Some m'" for s' m'
    using Seq.IH(2) [OF that Seq.prems(2)] .
  from Seq.IH(1) [OF _ this] Seq.prems(1) show ?case by simp
next
  case (Star a)
  from Star.prems(1) have "star_loop (rmatch a) True (length (remaining s)) k s = Some m"
    by simp
  then show ?case
    by (rule star_loop_shrinks [rotated 2]) (erule Star.IH, assumption, erule Star.prems(2))
next
  case (LazyStar a)
  from LazyStar.prems(1) have "star_loop (rmatch a) False (length (remaining s)) k s = Some m"
    by simp
  then show ?case
    by (rule star_loop_shrinks [rotated 2]) (erule LazyStar.IH, assumption, erule LazyStar.prems(2))
next
  case (Opt a)
  from Opt.prems(1) have "rmatch a k s = Some m \<or> k s = Some m"
    by (auto split: option.splits)
  then show ?case
    using Opt.IH [of k s m] Opt.prems(2) by blast
next
  case Bol
  then show ?case by (auto split: list.splits if_splits)
next
  case (Grp name a)
  let ?k = "\<lambda>s'. k (MState (consumed s') (remaining s')
                  (AList.update name
                     (rev (take (length (consumed s') - length (consumed s)) (consumed s')))
                     (captures s')))"
  have "length (remaining m') \<le> length (remaining s')" if "?k s' = Some m'" for s' m'
    using Grp.prems(2) [OF that] by simp
  from Grp.IH [OF _ this] Grp.prems(1) show ?case by simp
qed

lemma re_search_shrinks:
  "re_search r s = Some m \<Longrightarrow> length (remaining m) \<le> length (remaining s)"
proof (induction r s rule: re_search.induct)
  case (1 r s)
  show ?case
  proof (cases "rmatch r Some (MState (consumed s) (remaining s) [])")
    case (Some m')
    with 1(2) have "rmatch r Some (MState (consumed s) (remaining s) []) = Some m" by simp
    from rmatch_shrinks [OF _ this] show ?thesis by simp
  next
    case None
    with 1(2) obtain c cs where s: "remaining s = c # cs"
      and m: "re_search r (MState (c # consumed s) cs []) = Some m"
      by (auto split: list.splits)
    from 1(1) [OF None s m] s show ?thesis by simp
  qed
qed

text \<open>\<open>re.findall\<close>: the matches from left to right, each search starting where the last
  match ended (one character further after an empty match).\<close>

function re_findall :: "regex \<Rightarrow> mstate \<Rightarrow> (string \<times> string) list list" where
  "re_findall r s =
     (case re_search r s of
        None \<Rightarrow> []
      | Some m \<Rightarrow>
          captures m #
          (if length (remaining m) < length (remaining s)
           then re_findall r (MState (consumed m) (remaining m) [])
           else (case remaining m of
                   [] \<Rightarrow> []
                 | c # cs \<Rightarrow> re_findall r (MState (c # consumed m) cs []))))"
  by pat_completeness auto
termination
proof (relation "measure (\<lambda>(r, s). length (remaining s))", goal_cases)
  case (3 r s m c cs)
  from re_search_shrinks [OF 3(1)] 3(3) show ?case by simp
qed simp_all

text \<open>The value of a group: \<open>None\<close> for a group that took no part in the match.\<close>

definition group :: "(string \<times> string) list \<Rightarrow> string \<Rightarrow> string option" where
  "group caps name = map_of caps name"

text \<open>\<open>typedef\s+struct\s*{([^}]*)}\s*(\w+)\s*;\<close> and, for one line of the body,
  \<open>(\w+)\s+(\w+)(\s*\[\s*(\d+)\s*\])?;\<close>.\<close>

definition view_struct_pattern :: regex where
  "view_struct_pattern =
     seq [Lit ''typedef'', Plus (Cls is_space), Lit ''struct'', Star (Cls is_space),
          Chr (CHR ''{''), Grp ''1'' (Star (Cls (\<lambda>c. c \<noteq> CHR ''}''))), Chr (CHR ''}''),
          Star (Cls is_space), Grp ''2'' (Plus (Cls is_word)), Star (Cls is_space),
          Chr (CHR '';'')]"

definition view_field_pattern :: regex where
  "view_field_pattern =
     seq [Grp ''1'' (Plus (Cls is_word)), Plus (Cls is_space), Grp ''2'' (Plus (Cls is_word)),
          Opt (Grp ''3'' (seq [Star (Cls is_space), Chr (CHR ''[''), Star (Cls is_space),
                               Grp ''4'' (Plus (Cls is_digit)), Star (Cls is_space),
                               Chr (CHR '']'')])),
          Chr (CHR '';'')]"

text \<open>\<open>body.splitlines()\<close>, for the line boundaries of ASCII.\<close>

fun splitlines :: "string \<Rightarrow> string \<Rightarrow> string list" where
  "splitlines [] cur = (if cur = [] then [] else [rev cur])"
| "splitlines (c # cs) cur =
     (if c = CHR 0x0D then
        (case cs of
           [] \<Rightarrow> [rev cur]
         | d # ds \<Rightarrow> if d = CHR 0x0A then rev cur # splitlines ds []
                    else rev cur # splitlines (d # ds) [])
      else if c \<in> set [CHR 0x0A, CHR 0x0B, CHR 0x0C, CHR 0x1C, CHR 0x1D, CHR 0x1E]
      then rev cur # splitlines cs []
      else splitlines cs (c # cur))"

definition startswith :: "string \<Rightarrow> string \<Rightarrow> bool" where
  "startswith s p = (take (length p) s = p)"

text \<open>The loop over the lines of one body.\<close>

fun view_fields :: "string list \<Rightarrow> field list" where
  "view_fields [] = []"
| "view_fields (l # ls) =
     (let line = strip l in
      if line = [] \<or> startswith line ''//'' then view_fields ls
      else
        (case rmatch view_field_pattern Some (MState [] line []) of
           None \<Rightarrow> view_fields ls
         | Some m \<Rightarrow>
             (case (group (captures m) ''1'', group (captures m) ''2'') of
                (Some field_type, Some name) \<Rightarrow>
                  (name, field_type,
                   (case group (captures m) ''3'' of
                      None \<Rightarrow> None
                    | Some g3 \<Rightarrow>
                        (case group (captures m) ''4'' of
                           None \<Rightarrow> None
                         | Some g4 \<Rightarrow> Some [nat_of_digits g4]))) # view_fields ls
              | _ \<Rightarrow> view_fields ls)))"

definition parse_view_structs :: "string \<Rightarrow> structs" where
  "parse_view_structs content =
     fold (\<lambda>caps view_structs.
             case (group caps ''1'', group caps ''2'') of
               (Some body, Some struct_name) \<Rightarrow>
                 AList.update struct_name (view_fields (splitlines body [])) view_structs
             | _ \<Rightarrow> view_structs)
          (re_findall view_struct_pattern (MState [] content [])) []"

text \<open>\<open>load_mapping\<close>: the lines \<open>key: value\<close> of the mapping file; \<open>line.split(':', 1)\<close>
  cuts at the first colon.\<close>

fun split_on :: "char \<Rightarrow> string \<Rightarrow> string \<Rightarrow> string list" where
  "split_on sep [] cur = [rev cur]"
| "split_on sep (c # cs) cur =
     (if c = sep then rev cur # split_on sep cs [] else split_on sep cs (c # cur))"

definition mapping_of_lines :: "string list \<Rightarrow> mapping" where
  "mapping_of_lines lines =
     fold (\<lambda>l explicit_mapping.
             let line = strip l in
             if line \<noteq> [] \<and> \<not> startswith line ''#'' \<and> CHR '':'' \<in> set line
             then AList.update (strip (takeWhile (\<lambda>c. c \<noteq> CHR '':'') line))
                               (strip (drop 1 (dropWhile (\<lambda>c. c \<noteq> CHR '':'') line)))
                               explicit_mapping
             else explicit_mapping)
          lines []"

section \<open>The run\<close>

definition load_full_structs :: "destructor \<Rightarrow> error + destructor" where
  "load_full_structs self =
     (case parse_typedef_structs (tokenize (header_file self)) of
        Inl e \<Rightarrow> Inl e
      | Inr s \<Rightarrow> Inr (self\<lparr>structs := s\<rparr>))"

definition load_view_structs :: "nat \<Rightarrow> destructor \<Rightarrow> error + destructor" where
  "load_view_structs limit self =
     (let self' = self\<lparr>view_defs := parse_view_structs (view_file self)\<rparr> in
      case build_view_tree limit (view_defs self') (target_view self') of
        None \<Rightarrow> Inl RecursionError
      | Some tree \<Rightarrow> Inr (self'\<lparr>view_tree := tree\<rparr>))"

definition load_mapping :: "destructor \<Rightarrow> destructor" where
  "load_mapping self =
     (case mapping_file self of
        None \<Rightarrow> self
      | Some text \<Rightarrow>
          self\<lparr>explicit_mapping := mapping_of_lines (split_on (CHR 0x0A) text [])\<rparr>)"

text \<open>\<open>extract_declaration_info\<close> sets the four attributes when the pattern is found in
  \<open>init_text\<close> and nothing otherwise.\<close>

definition extract_declaration_info :: "destructor \<Rightarrow> destructor" where
  "extract_declaration_info self =
     (case re_search (declaration_pattern (target_struct self)) (MState [] (init_text self) []) of
        None \<Rightarrow> self
      | Some m \<Rightarrow>
          (case (group (captures m) ''spec'', group (captures m) ''var'',
                 group (captures m) ''init'') of
             (Some spec_text, Some var_name, Some block) \<Rightarrow>
               (let spec = strip spec_text in
                self\<lparr>prefix := Some (if spec \<noteq> [] then spec @ '' '' else []),
                     var_nameSrc := Some var_name,
                     array_size :=
                       Some (case group (captures m) ''3'' of
                               None \<Rightarrow> None
                             | Some g3 \<Rightarrow>
                                 (case group (captures m) ''size'' of
                                    None \<Rightarrow> None
                                  | Some size_text \<Rightarrow>
                                      Some (if size_text = [] then ''[]'' else size_text))),
                     init_block := Some block\<rparr>)
           | _ \<Rightarrow> self))"

text \<open>The text an f-string gives for the result of \<open>process_structure\<close>: a string as it is,
  a list of strings (free of quotes, backslashes and control characters) as Python prints
  it.\<close>

definition format_value :: "fmval \<Rightarrow> string" where
  "format_value v =
     (case v of
        VStr s \<Rightarrow> s
      | VList l \<Rightarrow> ''['' @ join '', '' (map (\<lambda>s. [CHR 0x27] @ s @ [CHR 0x27]) l) @ '']'')"

text \<open>\<open>generate_declaration\<close> reads \<open>self.array_size\<close> and \<open>self.prefix\<close>; reading an
  attribute that was never set raises \<open>AttributeError\<close>.\<close>

definition generate_declaration :: "destructor \<Rightarrow> string \<Rightarrow> string \<Rightarrow> error + string" where
  "generate_declaration self init_str var_name =
     (case (array_size self, prefix self) of
        (Some size_opt, Some pre) \<Rightarrow>
          (case size_opt of
             Some sz \<Rightarrow>
               if sz = ''[]''
               then Inr (pre @ '' '' @ target_struct self @ '' '' @ var_name @ ''[]''
                         @ postfix self @ '' = '' @ init_str @ '';'')
               else Inr (pre @ '' '' @ target_struct self @ '' '' @ var_name @ ''['' @ sz @ '']''
                         @ postfix self @ '' = '' @ init_str @ '';'')
           | None \<Rightarrow>
               Inr (pre @ '' '' @ target_struct self @ '' '' @ var_name
                    @ postfix self @ '' = '' @ init_str @ '';''))
      | _ \<Rightarrow> Inl AttributeError)"

definition setPostfix :: "destructor \<Rightarrow> string \<Rightarrow> destructor" where
  "setPostfix self p = self\<lparr>postfix := (if p \<noteq> [] then p @ '' '' else [])\<rparr>"

text \<open>\<open>run\<close>: the declaration and the processor as the run leaves it.\<close>

definition run :: "nat \<Rightarrow> destructor \<Rightarrow> string \<Rightarrow> error + (string \<times> destructor)" where
  "run limit self newVarName =
     (case load_full_structs self of
        Inl e \<Rightarrow> Inl e
      | Inr self1 \<Rightarrow>
          (case load_view_structs limit self1 of
             Inl e \<Rightarrow> Inl e
           | Inr self2 \<Rightarrow>
               (let self3 = extract_declaration_info (load_mapping self2) in
                case init_block self3 of
                  None \<Rightarrow> Inl AttributeError
                | Some block \<Rightarrow>
                    if block = [] then Inr ([], self3)
                    else
                      (case process_structure limit self3 block of
                         Inl e \<Rightarrow> Inl e
                       | Inr (init_str, self4) \<Rightarrow>
                           (case (if newVarName \<noteq> [] then Some newVarName
                                  else var_nameSrc self4) of
                              None \<Rightarrow> Inl AttributeError
                            | Some var_name \<Rightarrow>
                                (case generate_declaration self4 (format_value init_str) var_name of
                                   Inl e \<Rightarrow> Inl e
                                 | Inr decl \<Rightarrow> Inr (decl, self4)))))))"

section \<open>Properties\<close>

subsection \<open>Flattening\<close>

lemma digit_char_is_digit: "d < 10 \<Longrightarrow> is_digit (digit_char d)"
  unfolding is_digit_def digit_char_def by (rule nth_mem) simp

lemma str_nat_digits: "list_all is_digit (str_nat n)"
proof (induction n rule: str_nat.induct)
  case (1 n)
  show ?case
  proof (cases "n < 10")
    case True
    then show ?thesis by (subst str_nat.simps) (simp add: digit_char_is_digit)
  next
    case False
    with 1 show ?thesis by (subst str_nat.simps) (simp add: digit_char_is_digit)
  qed
qed

lemma str_nat_nonempty: "str_nat n \<noteq> []"
  by (subst str_nat.simps) simp

lemma not_digit_underscore: "\<not> is_digit (CHR ''_'')"
  by (simp add: is_digit_def)

lemma lstrip_underscore_index: "lstrip_underscore (''_'' @ str_nat j @ rest) = str_nat j @ rest"
proof -
  obtain c cs where s: "str_nat j = c # cs"
    using str_nat_nonempty [of j] by (cases "str_nat j") auto
  have "is_digit c" using str_nat_digits [of j] s by simp
  then have "c \<noteq> CHR ''_''" using not_digit_underscore by auto
  then show ?thesis by (simp add: lstrip_underscore_def s)
qed

lemma gen_indices_2: "gen_indices [n, m] [] =
   concat (map (\<lambda>i. map (\<lambda>j. str_nat i @ ''_'' @ str_nat j) [0..<m]) [0..<n])"
proof -
  have "lstrip_underscore (CHR ''_'' # str_nat i @ CHR ''_'' # str_nat j) = str_nat i @ CHR ''_'' # str_nat j" for i j
    using lstrip_underscore_index [of i "''_'' @ str_nat j"] by simp
  then show ?thesis by simp
qed

lemma extend_all_append:
  "extend_all (xs @ ys) =
     (case extend_all xs of None \<Rightarrow> None
      | Some a \<Rightarrow> (case extend_all ys of None \<Rightarrow> None | Some b \<Rightarrow> Some (a @ b)))"
  unfolding extend_all_def
  by (induction xs) (auto split: option.splits)

lemma extend_all_Cons:
  "extend_all (x # xs) =
     (case x of None \<Rightarrow> None
      | Some a \<Rightarrow> (case extend_all xs of None \<Rightarrow> None | Some b \<Rightarrow> Some (a @ b)))"
  unfolding extend_all_def by (auto split: option.splits)

lemma extend_all_Nil: "extend_all [] = Some []"
  by (simp add: extend_all_def)

lemma flatten_struct_fields_Suc:
  "flatten_struct_fields (Suc depth) reg struct_name source_prefix output_prefix em =
     (case map_of reg struct_name of
        None \<Rightarrow> Some []
      | Some flds \<Rightarrow> flatten_fields depth reg source_prefix output_prefix em flds)"
  by (simp add: flatten_fields_def split: option.splits)

lemma flatten_fields_append:
  "flatten_fields depth reg sp op em (xs @ ys) =
     (case flatten_fields depth reg sp op em xs of None \<Rightarrow> None
      | Some a \<Rightarrow> (case flatten_fields depth reg sp op em ys of None \<Rightarrow> None | Some b \<Rightarrow> Some (a @ b)))"
  by (simp add: flatten_fields_def extend_all_append split: option.splits)

lemma flatten_fields_Cons:
  "flatten_fields depth reg sp op em (x # xs) =
     (case flatten_field (\<lambda>t s p. flatten_struct_fields depth reg t s p em) reg sp op em x of None \<Rightarrow> None
      | Some a \<Rightarrow> (case flatten_fields depth reg sp op em xs of None \<Rightarrow> None | Some b \<Rightarrow> Some (a @ b)))"
  by (simp add: flatten_fields_def extend_all_Cons split: option.splits)

lemma flatten_field_primitive_array:
  assumes "\<not> in_dict reg ty" "dims \<noteq> []"
  shows "flatten_field recurse reg sp op em (name, ty, Some dims) =
     Some (if length dims = 1
           then map (\<lambda>i. new_output_prefix_of em (normalize_path (full_source_path_of sp name)) name op @ ''_'' @ str_nat i) [0..<hd dims]
           else map (\<lambda>idx. new_output_prefix_of em (normalize_path (full_source_path_of sp name)) name op @ ''_'' @ idx) (gen_indices dims []))"
  using assms by (simp add: flatten_field_def Let_def)

lemma root_prefix_no_override:
  assumes "\<not> mapping_has em (normalize_path name)" "\<not> mapping_has em name"
  shows "new_output_prefix_of em (normalize_path (full_source_path_of [] name)) name [] = name"
  using assms by (simp add: new_output_prefix_of_def current_output_of_def full_source_path_of_def mapping_has_def split: option.splits)

lemma flatten_struct_fields_block:
  assumes reg: "map_of reg struct_name = Some (pre @ f # post)"
    and fld: "flatten_field (\<lambda>t s p. flatten_struct_fields depth reg t s p em) reg sp op em f
                = Some block"
  shows "flatten_struct_fields (Suc depth) reg struct_name sp op em =
              (case flatten_fields depth reg sp op em pre of None \<Rightarrow> None
               | Some before \<Rightarrow>
                  (case flatten_fields depth reg sp op em post of None \<Rightarrow> None
                   | Some after \<Rightarrow> Some (before @ block @ after)))"
  unfolding flatten_struct_fields_Suc reg option.case flatten_fields_append flatten_fields_Cons fld
  by (simp split: option.splits)

text \<open>
  Claim C6 (array flattening order). Let a schema hold a field \<open>name\<close> of a type that is not a
  struct of the registry, with no mapping override for it, between the fields \<open>pre\<close> and
  \<open>post\<close>. Flattened at the root, the schema gives what \<open>pre\<close> gives, then for dims \<open>[n]\<close>
  exactly the \<open>n\<close> paths \<open>name_0\<close>, ..., \<open>name_{n-1}\<close> in that order, and for dims \<open>[n, m]\<close>
  exactly the \<open>n * m\<close> paths \<open>name_i_j\<close> in row-major order (\<open>i\<close> varies slowest), then what
  \<open>post\<close> gives; it returns whenever the other fields do.
\<close>

theorem array_flattening_order:
  assumes reg: "map_of reg struct_name = Some (pre @ (name, ty, Some dims) # post)"
    and prim: "\<not> in_dict reg ty"
    and no1: "\<not> mapping_has em (normalize_path name)"
    and no2: "\<not> mapping_has em name"
  shows "(dims = [n] \<longrightarrow>
            flatten_struct_fields (Suc depth) reg struct_name [] [] em =
              (case flatten_fields depth reg [] [] em pre of None \<Rightarrow> None
               | Some before \<Rightarrow>
                  (case flatten_fields depth reg [] [] em post of None \<Rightarrow> None
                   | Some after \<Rightarrow>
                       Some (before @ map (\<lambda>i. name @ ''_'' @ str_nat i) [0..<n] @ after))))
       \<and> (dims = [n, m] \<longrightarrow>
            flatten_struct_fields (Suc depth) reg struct_name [] [] em =
              (case flatten_fields depth reg [] [] em pre of None \<Rightarrow> None
               | Some before \<Rightarrow>
                  (case flatten_fields depth reg [] [] em post of None \<Rightarrow> None
                   | Some after \<Rightarrow>
                       Some (before
                         @ concat (map (\<lambda>i. map (\<lambda>j. name @ ''_'' @ str_nat i @ ''_'' @ str_nat j) [0..<m]) [0..<n])
                         @ after))))"
proof (intro conjI impI)
  assume d: "dims = [n]"
  have "flatten_field (\<lambda>t s p. flatten_struct_fields depth reg t s p em) reg [] [] em
          (name, ty, Some dims) = Some (map (\<lambda>i. name @ ''_'' @ str_nat i) [0..<n])"
    using flatten_field_primitive_array [OF prim, of dims _ "[]" "[]" em name]
    by (simp add: d root_prefix_no_override [OF no1 no2])
  from flatten_struct_fields_block [OF reg this]
  show "flatten_struct_fields (Suc depth) reg struct_name [] [] em =
              (case flatten_fields depth reg [] [] em pre of None \<Rightarrow> None
               | Some before \<Rightarrow>
                  (case flatten_fields depth reg [] [] em post of None \<Rightarrow> None
                   | Some after \<Rightarrow>
                       Some (before @ map (\<lambda>i. name @ ''_'' @ str_nat i) [0..<n] @ after)))" .
next
  assume d: "dims = [n, m]"
  have blk: "map (\<lambda>idx. name @ ''_'' @ idx) (gen_indices [n, m] []) =
     concat (map (\<lambda>i. map (\<lambda>j. name @ ''_'' @ str_nat i @ ''_'' @ str_nat j) [0..<m]) [0..<n])"
    unfolding gen_indices_2 by (simp add: map_concat comp_def)
  have "flatten_field (\<lambda>t s p. flatten_struct_fields depth reg t s p em) reg [] [] em
          (name, ty, Some dims) =
        Some (concat (map (\<lambda>i. map (\<lambda>j. name @ ''_'' @ str_nat i @ ''_'' @ str_nat j) [0..<m]) [0..<n]))"
    using flatten_field_primitive_array [OF prim, of dims _ "[]" "[]" em name] blk
    by (simp add: d root_prefix_no_override [OF no1 no2])
  from flatten_struct_fields_block [OF reg this]
  show "flatten_struct_fields (Suc depth) reg struct_name [] [] em =
              (case flatten_fields depth reg [] [] em pre of None \<Rightarrow> None
               | Some before \<Rightarrow>
                  (case flatten_fields depth reg [] [] em post of None \<Rightarrow> None
                   | Some after \<Rightarrow>
                       Some (before
                         @ concat (map (\<lambda>i. map (\<lambda>j. name @ ''_'' @ str_nat i @ ''_'' @ str_nat j) [0..<m]) [0..<n])
                         @ after)))" .
qed


lemma str_nat_small:
  "str_nat 0 = ''0''" "str_nat 1 = ''1''" "str_nat (Suc 0) = ''1''" "str_nat 2 = ''2''"
  "str_nat 3 = ''3''"
  by (simp_all add: str_nat.simps digit_char_def)

theorem array_flattening_order_witness:
  "flatten_struct_fields (Suc 0) [(''box'', [(''v'', ''int'', Some [3])])] ''box'' [] [] None
     = Some [''v_0'', ''v_1'', ''v_2'']
   \<and> flatten_struct_fields (Suc 0)
        [(''grid'', [(''id'', ''int'', None), (''m'', ''int'', Some [2, 2])])] ''grid'' [] []
        (Some [(''other'', ''o'')])
     = Some [''id'', ''m_0_0'', ''m_0_1'', ''m_1_0'', ''m_1_1'']"
proof -
  have up: "[0..<3] = [0, 1, 2]" "[0..<2] = [0, 1]"
    by (simp_all add: upt_rec)
  have a: "flatten_struct_fields (Suc 0) [(''box'', [(''v'', ''int'', Some [3])])] ''box'' [] [] None
     = Some [''v_0'', ''v_1'', ''v_2'']"
    using array_flattening_order [of "[(''box'', [(''v'', ''int'', Some [3])])]" "''box''" "[]"
        "''v''" "''int''" "[3]" "[]" None 3 0 0]
    by (simp add: in_dict_def mapping_has_def mapping_get_def flatten_fields_def extend_all_def
        str_nat_small up)
  have b: "flatten_struct_fields (Suc 0)
        [(''grid'', [(''id'', ''int'', None), (''m'', ''int'', Some [2, 2])])] ''grid'' [] []
        (Some [(''other'', ''o'')])
     = Some [''id'', ''m_0_0'', ''m_0_1'', ''m_1_0'', ''m_1_1'']"
    using array_flattening_order [of
        "[(''grid'', [(''id'', ''int'', None), (''m'', ''int'', Some [2, 2])])]" "''grid''"
        "[(''id'', ''int'', None)]" "''m''" "''int''" "[2, 2]" "[]" "Some [(''other'', ''o'')]" 2 0 2]
    by (simp add: in_dict_def mapping_has_def mapping_get_def flatten_fields_def extend_all_def
        flatten_field_def new_output_prefix_of_def current_output_of_def full_source_path_of_def
        str_nat_small up)
  from a b show ?thesis by simp
qed

subsection \<open>The mapping table and the number of leaves\<close>

lemma extend_all_length_cong:
  assumes "list_all2 (\<lambda>a b. map_option length a = map_option length b) xs ys"
  shows "map_option length (extend_all xs) = map_option length (extend_all (ys :: 'b list option list))"
  using assms
proof (induction rule: list_all2_induct)
  case Nil
  show ?case by (simp add: extend_all_Nil)
next
  case (Cons x xs y ys)
  then show ?case
    by (cases x; cases y; cases "extend_all xs"; cases "extend_all ys")
       (auto simp: extend_all_Cons)
qed

lemma extend_all_map_length_cong:
  assumes "\<And>i. i \<in> set is \<Longrightarrow> map_option length (f i) = map_option length (g i)"
  shows "map_option length (extend_all (map f is)) = map_option length (extend_all (map g is))"
  by (rule extend_all_length_cong) (simp add: list_all2_map1 list_all2_map2 list_all2_same assms)

lemma flatten_field_length:
  assumes r: "\<And>t s p s' p'. map_option length (r t s p) = map_option length (r' t s' p')"
  shows "map_option length (flatten_field r reg sp op em f)
       = map_option length (flatten_field r' reg sp' op' em' f)"
proof -
  obtain name ty dims where f: "f = (name, ty, dims)" by (cases f)
  show ?thesis
  proof (cases "in_dict reg ty")
    case True
    show ?thesis
    proof (cases dims)
      case None
      with True f r show ?thesis by (simp add: flatten_field_def Let_def)
    next
      case (Some ds)
      with True f show ?thesis
        by (auto simp: flatten_field_def Let_def intro!: extend_all_map_length_cong r)
    qed
  next
    case False
    with f show ?thesis
      by (cases dims) (simp_all add: flatten_field_def Let_def)
  qed
qed

lemma flatten_struct_fields_length:
  "map_option length (flatten_struct_fields depth reg name sp op em)
 = map_option length (flatten_struct_fields depth reg name sp' op' em')"
proof (induction depth arbitrary: name sp op sp' op')
  case 0
  show ?case by simp
next
  case (Suc depth)
  show ?case
  proof (cases "map_of reg name")
    case None
    then show ?thesis by simp
  next
    case (Some flds)
    have "map_option length (extend_all (map (flatten_field
             (\<lambda>t s p. flatten_struct_fields depth reg t s p em) reg sp op em) flds))
        = map_option length (extend_all (map (flatten_field
             (\<lambda>t s p. flatten_struct_fields depth reg t s p em') reg sp' op' em') flds))"
      by (rule extend_all_map_length_cong, rule flatten_field_length, rule Suc.IH)
    with Some show ?thesis by simp
  qed
qed

text \<open>
  Claim C10 (the leaf count does not depend on the mapping). For every registry, struct name
  and prefixes, flattening under two mapping tables (or none) returns under the same bound
  on the depth, and the lists have the same length; so \<open>check_structure_type\<close> gives the same
  answer whatever mapping table the processor holds.
\<close>

theorem mapping_independent_leaf_count:
  "map_option length (flatten_struct_fields depth reg name sp op em1)
     = map_option length (flatten_struct_fields depth reg name sp op em2)
   \<and> check_structure_type limit (self\<lparr>explicit_mapping := m1\<rparr>) flat_values
     = check_structure_type limit (self\<lparr>explicit_mapping := m2\<rparr>) flat_values"
proof
  show "map_option length (flatten_struct_fields depth reg name sp op em1)
     = map_option length (flatten_struct_fields depth reg name sp op em2)"
    by (rule flatten_struct_fields_length)
next
  have "map_option length (flat_schema limit (self\<lparr>explicit_mapping := m1\<rparr>))
      = map_option length (flat_schema limit (self\<lparr>explicit_mapping := m2\<rparr>))"
    unfolding flat_schema_def by (simp add: flatten_struct_fields_length [of _ _ _ _ _ "Some m1" _ _ "Some m2"])
  then show "check_structure_type limit (self\<lparr>explicit_mapping := m1\<rparr>) flat_values
     = check_structure_type limit (self\<lparr>explicit_mapping := m2\<rparr>) flat_values"
    unfolding check_structure_type_def
    by (cases "flat_schema limit (self\<lparr>explicit_mapping := m1\<rparr>)";
        cases "flat_schema limit (self\<lparr>explicit_mapping := m2\<rparr>)") auto
qed

theorem mapping_independent_leaf_count_witness:
  "map_option length (flatten_struct_fields 2
       [(''outer'', [(''a'', ''inner'', Some [2])]), (''inner'', [(''b'', ''int'', None)])]
       ''outer'' [] [] (Some [(''a.b'', ''renamed'')]))
     = map_option length (flatten_struct_fields 2
       [(''outer'', [(''a'', ''inner'', Some [2])]), (''inner'', [(''b'', ''int'', None)])]
       ''outer'' [] [] None)
   \<and> flatten_struct_fields 2
       [(''outer'', [(''a'', ''inner'', Some [2])]), (''inner'', [(''b'', ''int'', None)])]
       ''outer'' [] [] (Some [(''a.b'', ''renamed'')]) = Some [''renamed'', ''renamed'']
   \<and> flatten_struct_fields 2
       [(''outer'', [(''a'', ''inner'', Some [2])]), (''inner'', [(''b'', ''int'', None)])]
       ''outer'' [] [] None = Some [''a_0_b'', ''a_1_b'']"
proof -
  have a: "flatten_struct_fields 2
       [(''outer'', [(''a'', ''inner'', Some [2])]), (''inner'', [(''b'', ''int'', None)])]
       ''outer'' [] [] (Some [(''a.b'', ''renamed'')]) = Some [''renamed'', ''renamed'']"
    by code_simp
  have b: "flatten_struct_fields 2
       [(''outer'', [(''a'', ''inner'', Some [2])]), (''inner'', [(''b'', ''int'', None)])]
       ''outer'' [] [] None = Some [''a_0_b'', ''a_1_b'']"
    by code_simp
  from a b mapping_independent_leaf_count [of 2
       "[(''outer'', [(''a'', ''inner'', Some [2])]), (''inner'', [(''b'', ''int'', None)])]"
       "''outer''" "[]" "[]" "Some [(''a.b'', ''renamed'')]" None]
  show ?thesis by simp
qed

subsection \<open>Mapping overrides\<close>

text \<open>
  Claim C5 (an override re-anchors the output name). For every field, the new output prefix
  is the override when the normalized source path has a mapping entry, else the override of
  the bare field name when that has one, and in both cases the parent prefix is dropped;
  with no entry it is the parent prefix, \<open>_\<close> and the field name (the field name alone under
  an empty prefix). A scalar field of a struct type is flattened under that prefix and a
  scalar field of another type is the one path of that name. For the schema with the root
  field \<open>a\<close>, a struct with the fields \<open>b\<close> and \<open>c\<close>, and the mapping \<open>a.b: renamed\<close>, the
  flattened names are \<open>renamed\<close> and \<open>a_c\<close>, in that order.
\<close>

theorem mapping_override_reanchoring:
  "new_output_prefix_of em (normalize_path (full_source_path_of sp name)) name op =
     (case mapping_get em (normalize_path (full_source_path_of sp name)) of
        Some v \<Rightarrow> v
      | None \<Rightarrow>
          (case mapping_get em name of
             Some v \<Rightarrow> v
           | None \<Rightarrow> if op = [] then name else op @ ''_'' @ name))
   \<and> flatten_field recurse reg sp op em (name, ty, None) =
     (if in_dict reg ty
      then recurse ty (full_source_path_of sp name)
             (new_output_prefix_of em (normalize_path (full_source_path_of sp name)) name op)
      else Some [new_output_prefix_of em (normalize_path (full_source_path_of sp name)) name op])
   \<and> flatten_struct_fields 2
       [(''outer'', [(''a'', ''inner'', None)]),
        (''inner'', [(''b'', ''int'', None), (''c'', ''int'', None)])]
       ''outer'' [] [] (Some [(''a.b'', ''renamed'')]) = Some [''renamed'', ''a_c'']"
proof (intro conjI)
  show "new_output_prefix_of em (normalize_path (full_source_path_of sp name)) name op =
     (case mapping_get em (normalize_path (full_source_path_of sp name)) of
        Some v \<Rightarrow> v
      | None \<Rightarrow>
          (case mapping_get em name of
             Some v \<Rightarrow> v
           | None \<Rightarrow> if op = [] then name else op @ ''_'' @ name))"
    by (simp add: new_output_prefix_of_def current_output_of_def mapping_has_def
        split: option.splits)
next
  show "flatten_field recurse reg sp op em (name, ty, None) =
     (if in_dict reg ty
      then recurse ty (full_source_path_of sp name)
             (new_output_prefix_of em (normalize_path (full_source_path_of sp name)) name op)
      else Some [new_output_prefix_of em (normalize_path (full_source_path_of sp name)) name op])"
    by (simp add: flatten_field_def Let_def)
next
  show "flatten_struct_fields 2
       [(''outer'', [(''a'', ''inner'', None)]),
        (''inner'', [(''b'', ''int'', None), (''c'', ''int'', None)])]
       ''outer'' [] [] (Some [(''a.b'', ''renamed'')]) = Some [''renamed'', ''a_c'']"
    by code_simp
qed

theorem mapping_override_reanchoring_witness:
  "new_output_prefix_of (Some [(''a.b'', ''renamed'')]) (normalize_path (full_source_path_of ''a[0]'' ''b''))
      ''b'' ''a_0'' = ''renamed''
   \<and> new_output_prefix_of (Some [(''a.b'', ''renamed'')]) (normalize_path (full_source_path_of ''a[0]'' ''c''))
      ''c'' ''a_0'' = ''a_0_c''
   \<and> new_output_prefix_of (Some [(''c'', ''sea'')]) (normalize_path (full_source_path_of ''a[0]'' ''c''))
      ''c'' ''a_0'' = ''sea''"
proof -
  have n: "normalize_path (full_source_path_of ''a[0]'' ''b'') = ''a.b''"
    "normalize_path (full_source_path_of ''a[0]'' ''c'') = ''a.c''"
    by code_simp+
  note t = mapping_override_reanchoring [THEN conjunct1]
  show ?thesis
    using t [of "Some [(''a.b'', ''renamed'')]" "''a[0]''" "''b''" "''a_0''"]
      t [of "Some [(''a.b'', ''renamed'')]" "''a[0]''" "''c''" "''a_0''"]
      t [of "Some [(''c'', ''sea'')]" "''a[0]''" "''c''" "''a_0''"]
    unfolding n
    by (simp add: mapping_get_def)
qed

subsection \<open>The field map\<close>















subsection \<open>Rendering a leaf\<close>

text \<open>
  Claim C8 (a missing leaf renders as zero). For every field map and every accumulated
  prefix, rendering a leaf of the view tree returns the value stored under the prefix when
  the prefix is a key of the map and the literal \<open>0\<close> otherwise, and it never raises.
\<close>

theorem leaf_renders_value_or_zero:
  "(case map_of fm pfx of
      Some v \<Rightarrow> generate_nested_initializer (PStr t) fm pfx = Inr v
    | None \<Rightarrow> generate_nested_initializer (PStr t) fm pfx = Inr (VStr ''0''))
   \<and> (\<forall>e. generate_nested_initializer (PStr t) fm pfx \<noteq> Inl e)"
  by (simp split: option.splits)

theorem leaf_renders_value_or_zero_witness:
  "generate_nested_initializer (PStr ''int'') (generate_field_map [''x'', ''y''] [''1'', ''2'']) ''y''
     = Inr (VStr ''2'')
   \<and> generate_nested_initializer (PStr ''int'') (generate_field_map [''x'', ''y''] [''1'', ''2'']) ''z''
     = Inr (VStr ''0'')"
proof -
  have m: "map_of (generate_field_map [''x'', ''y''] [''1'', ''2'']) ''y'' = Some (VStr ''2'')"
    "map_of (generate_field_map [''x'', ''y''] [''1'', ''2'']) ''z'' = None"
    by code_simp+
  from leaf_renders_value_or_zero [where fm = "generate_field_map [''x'', ''y''] [''1'', ''2'']"
        and pfx = "''y''" and t = "''int''"]
    leaf_renders_value_or_zero [where fm = "generate_field_map [''x'', ''y''] [''1'', ''2'']"
        and pfx = "''z''" and t = "''int''"]
  show ?thesis
    unfolding m by simp
qed

subsection \<open>Instances with too few values\<close>

lemma check_structure_type_short:
  assumes "flat_schema limit self = Some names" "length flat_values < length names"
  shows "check_structure_type limit self flat_values = Inr False"
  using assms by (simp add: check_structure_type_def)

lemma flat_schema_flat_fields [simp]:
  "flat_schema limit (self\<lparr>flat_fields := ff\<rparr>) = flat_schema limit self"
  by (simp add: flat_schema_def)

lemma render_instance_flat_schema:
  "render_instance limit self flat_values = Inr (r, self') \<Longrightarrow>
   flat_schema limit self' = flat_schema limit self"
  by (auto simp: render_instance_def Let_def split: option.splits sum.splits)

lemma process_items_skip:
  assumes "flat_schema limit self = Some names"
    and "length (flatten_initialization bad) < length names"
  shows "process_items limit self (before @ bad # after) acc
       = process_items limit self (before @ after) acc"
  using assms(1)
proof (induction before arbitrary: self acc)
  case Nil
  then show ?case
    using check_structure_type_short [OF _ assms(2)] by simp
next
  case (Cons item before)
  show ?case
  proof (cases "check_structure_type limit self (flatten_initialization item)")
    case (Inl e)
    then show ?thesis by simp
  next
    case (Inr ok)
    show ?thesis
    proof (cases ok)
      case False
      with Inr Cons show ?thesis by simp
    next
      case True
      show ?thesis
      proof (cases "render_instance limit self (flatten_initialization item)")
        case (Inl e)
        with Inr True show ?thesis by simp
      next
        case r: (Inr p)
        obtain x self' where p: "p = (x, self')" by (cases p)
        from r p have "flat_schema limit self' = Some names"
          using render_instance_flat_schema [of limit self _ x self'] Cons.prems by simp
        from Cons.IH [OF this] Inr True r p show ?thesis by simp
      qed
    qed
  qed
qed

text \<open>
  Claim C4 (an instance with too few values is rejected). Let the flattened schema of the
  processor have more paths than the instance \<open>bad\<close> has flattened values. When \<open>bad\<close> is
  what a block parses to and it is not an array of structures, \<open>process_structure\<close> returns
  the empty string and leaves the processor as it was. In the loop over an array of
  structures \<open>bad\<close> is skipped: the loop gives what it gives on the other elements alone,
  and so does \<open>process_structure\<close> on a block that parses to an array holding \<open>bad\<close>.
\<close>

theorem schema_mismatch_rejected:
  assumes "flat_schema limit self = Some names"
    and "length (flatten_initialization bad) < length names"
  shows "(parse_initialization block = Inr bad \<and> \<not> array_of_structures bad \<longrightarrow>
            process_structure limit self block = Inr (VStr [], self))
       \<and> process_items limit self (before @ bad # after) acc
           = process_items limit self (before @ after) acc
       \<and> (parse_initialization block = Inr (LList (before @ bad # after))
            \<and> array_of_structures (LList (before @ bad # after)) \<longrightarrow>
            process_structure limit self block
              = wrap_items (process_items limit self (before @ after) []))"
  using check_structure_type_short [OF assms] process_items_skip [OF assms]
  by (simp add: process_structure_def)

theorem schema_mismatch_rejected_witness:
  "process_structure 5
     (C_deStructor [] [] [] ''point'' ''point'' None []
        \<lparr>structs := [(''point'', [(''x'', ''int'', None), (''y'', ''int'', None)])],
         view_tree := PDict [(''x'', PStr ''int''), (''y'', PStr ''int'')]\<rparr>)
     ''{1}''
   = Inr (VStr [],
      C_deStructor [] [] [] ''point'' ''point'' None []
        \<lparr>structs := [(''point'', [(''x'', ''int'', None), (''y'', ''int'', None)])],
         view_tree := PDict [(''x'', PStr ''int''), (''y'', PStr ''int'')]\<rparr>)
   \<and> map_sum id fst (process_structure 5
     (C_deStructor [] [] [] ''point'' ''point'' None []
        \<lparr>structs := [(''point'', [(''x'', ''int'', None), (''y'', ''int'', None)])],
         view_tree := PDict [(''x'', PStr ''int''), (''y'', PStr ''int'')]\<rparr>)
     ''{{1, 2}, {3}, {4, 5}}'')
   = Inr (VStr ([CHR ''{'', CHR 0x0A] @ ''{1, 2},'' @ [CHR 0x0A] @ ''{4, 5}'' @ [CHR 0x0A, CHR ''}'']))"
proof -
  let ?P = "C_deStructor [] [] [] ''point'' ''point'' None []
        \<lparr>structs := [(''point'', [(''x'', ''int'', None), (''y'', ''int'', None)])],
         view_tree := PDict [(''x'', PStr ''int''), (''y'', PStr ''int'')]\<rparr>"
  have schema: "flat_schema 5 ?P = Some [''x'', ''y'']"
    by code_simp
  have p1: "parse_initialization ''{1}'' = Inr (LList [LStr ''1''])"
    by code_simp
  have p2: "parse_initialization ''{{1, 2}, {3}, {4, 5}}''
      = Inr (LList ([LList [LStr ''1'', LStr ''2'']] @ LList [LStr ''3''] # [LList [LStr ''4'', LStr ''5'']]))"
    by code_simp
  have rest: "map_sum id fst (wrap_items (process_items 5 ?P
        ([LList [LStr ''1'', LStr ''2'']] @ [LList [LStr ''4'', LStr ''5'']]) []))
      = Inr (VStr ([CHR ''{'', CHR 0x0A] @ ''{1, 2},'' @ [CHR 0x0A] @ ''{4, 5}'' @ [CHR 0x0A, CHR ''}'']))"
    by code_simp
  have single: "process_structure 5 ?P ''{1}'' = Inr (VStr [], ?P)"
    using schema_mismatch_rejected [of 5 ?P "[''x'', ''y'']" "LList [LStr ''1'']" "''{1}''", OF schema] p1
    by simp
  have batch: "process_structure 5 ?P ''{{1, 2}, {3}, {4, 5}}''
      = wrap_items (process_items 5 ?P
          ([LList [LStr ''1'', LStr ''2'']] @ [LList [LStr ''4'', LStr ''5'']]) [])"
    using schema_mismatch_rejected [of 5 ?P "[''x'', ''y'']" "LList [LStr ''3'']"
        "''{{1, 2}, {3}, {4, 5}}''" "[LList [LStr ''1'', LStr ''2'']]"
        "[LList [LStr ''4'', LStr ''5'']]", OF schema] p2
    by simp
  from single batch rest show ?thesis by simp
qed

subsection \<open>Values of array leaves\<close>

text \<open>
  Claim C3 (round trip), at the schema \<open>typedef struct { int v[3]; } box;\<close>, the literal
  \<open>{1, 2, 3}\<close> and the view tree of the same schema: the literal has as many values as the
  schema has paths, the field map binds \<open>v\<close> to the three values, and the generator, which
  looks up \<open>v_0\<close>, \<open>v_1\<close> and \<open>v_2\<close>, renders three zeros.
\<close>

theorem round_trip_array_values_lost:
  "flatten_struct_fields 1 [(''box'', [(''v'', ''int'', Some [3])])] ''box'' [] [] None
     = Some [''v_0'', ''v_1'', ''v_2'']
   \<and> build_view_tree 1 [(''box'', [(''v'', ''int'', Some [3])])] ''box''
     = Some (PDict [(''v'', PDict [(''array'', PInt 3), (''fields'', PStr ''int'')])])
   \<and> map_sum id flatten_initialization (parse_initialization ''{1, 2, 3}'')
     = Inr [''1'', ''2'', ''3'']
   \<and> generate_field_map [''v_0'', ''v_1'', ''v_2''] [''1'', ''2'', ''3'']
     = [(''v'', VList [''1'', ''2'', ''3''])]
   \<and> generate_nested_initializer
       (PDict [(''v'', PDict [(''array'', PInt 3), (''fields'', PStr ''int'')])])
       (generate_field_map [''v_0'', ''v_1'', ''v_2''] [''1'', ''2'', ''3'']) []
     = Inr (VStr ''{{0, 0, 0}}'')
   \<and> map_sum id flatten_initialization (parse_initialization ''{{0, 0, 0}}'')
     = Inr [''0'', ''0'', ''0'']"
  by code_simp

subsection \<open>Field statements made of dimensions only\<close>

text \<open>
  Claim C7 (when parsing a schema fails), at the tokens of
  \<open>typedef struct { [3]; } box;\<close>: the closing brace is followed by the identifier \<open>box\<close>,
  and the field statement \<open>[3]\<close> is not empty, so it is not skipped; taking its dimension
  off leaves no token for the field name, and the parser raises \<open>IndexError\<close>.
\<close>

theorem dimension_only_field_raises:
  "tokenize ''typedef struct { [3]; } box;''
     = [Token ID ''typedef'', Token ID ''struct'', Token LBRACE ''{'', Token LBRACKET ''['',
        Token NUMBER ''3'', Token RBRACKET '']'', Token SEMICOLON '';'', Token RBRACE ''}'',
        Token ID ''box'', Token SEMICOLON '';'']
   \<and> parse_typedef_structs (tokenize ''typedef struct { [3]; } box;'') = Inl IndexError
   \<and> parse_typedef_structs (tokenize ''typedef struct { ; int v[3]; ; } box;'')
     = Inr [(''box'', [(''v'', ''int'', Some [3])])]
   \<and> parse_typedef_structs (tokenize ''typedef struct { int v[3]; } ;'') = Inl ValueError"
  by code_simp

subsection \<open>A run without a declaration\<close>

lemma run_without_declaration:
  assumes "load_full_structs self = Inr self1"
    and "load_view_structs limit self1 = Inr self2"
    and "init_block (load_mapping self2) = None"
    and "re_search (declaration_pattern (target_struct (load_mapping self2)))
           (MState [] (init_text (load_mapping self2)) []) = None"
  shows "run limit self newVarName = Inl AttributeError"
  using assms by (simp add: run_def extract_declaration_info_def)

text \<open>
  Claim C2 (no initializer statement for the requested type), at the schema and view
  \<open>typedef struct { int v[3]; } box;\<close>, the target \<open>box\<close> and the initializer text
  \<open>int y = 3;\<close>: the pattern of \<open>extract_declaration_info\<close> is not found, the attribute
  \<open>init_block\<close> is never set, and \<open>run\<close> raises \<open>AttributeError\<close> where it reads it.
\<close>

theorem missing_instance_raises:
  "re_search (declaration_pattern ''box'') (MState [] ''int y = 3;'' []) = None
   \<and> init_block (extract_declaration_info
        (C_deStructor ''typedef struct { int v[3]; } box;'' ''typedef struct { int v[3]; } box;''
           ''int y = 3;'' ''box'' ''box'' None [])) = None
   \<and> run 1000
        (C_deStructor ''typedef struct { int v[3]; } box;'' ''typedef struct { int v[3]; } box;''
           ''int y = 3;'' ''box'' ''box'' None []) []
      = Inl AttributeError
   \<and> run 1000
        (C_deStructor ''typedef struct { int v[3]; } box;'' ''typedef struct { int v[3]; } box;''
           [] ''box'' ''box'' None []) []
      = Inl AttributeError"
  by code_simp

subsection \<open>The array example, end to end\<close>

text \<open>
  Claim C1 as stated fails: for the schema and view \<open>typedef struct { int v[3]; } box;\<close>, no
  mapping and the initializer \<open>box b[1] = {{ {1,2,3} }};\<close> the run does not give
  \<open>box b[1] = {\n{1, 2, 3}\n};\<close>.
\<close>

theorem array_example_counterexample:
  "map_sum id fst (run 1000
        (C_deStructor ''typedef struct { int v[3]; } box;'' ''typedef struct { int v[3]; } box;''
           ''box b[1] = {{ {1,2,3} }};'' ''box'' ''box'' None []) [])
     = Inr ('' box b[1] = {'' @ [CHR 0x0A] @ ''{{0, 0, 0}}'' @ [CHR 0x0A] @ ''};'')
   \<and> map_sum id fst (run 1000
        (C_deStructor ''typedef struct { int v[3]; } box;'' ''typedef struct { int v[3]; } box;''
           ''box b[1] = {{ {1,2,3} }};'' ''box'' ''box'' None []) [])
     \<noteq> Inr (''box b[1] = {'' @ [CHR 0x0A] @ ''{1, 2, 3}'' @ [CHR 0x0A] @ ''};'')"
  by code_simp

text \<open>
  Claim C1, amended. For the schema and view \<open>typedef struct { int v[3]; } box;\<close>, no mapping
  and the initializer \<open>box b[1] = {{ {1,2,3} }};\<close>: the block found is \<open>{{ {1,2,3} }}\<close>, its
  one element has the flattened values \<open>1\<close>, \<open>2\<close>, \<open>3\<close>, the flattened schema names are
  \<open>v_0\<close>, \<open>v_1\<close>, \<open>v_2\<close>, the field map binds \<open>v\<close> to the three values, and the declaration
  is the (empty) specifier prefix, a space and \<open>box b[1] = {\n{{e0, e1, e2}}\n};\<close>: the one
  array element is the braces of the struct around the braces of its field \<open>v\<close>, which
  hold three elements separated by a comma and a space.
\<close>

theorem array_example_amended:
  "\<exists>e0 e1 e2.
     map_sum id fst (run 1000
        (C_deStructor ''typedef struct { int v[3]; } box;'' ''typedef struct { int v[3]; } box;''
           ''box b[1] = {{ {1,2,3} }};'' ''box'' ''box'' None []) [])
       = Inr ('' box b[1] = {'' @ [CHR 0x0A] @ ''{{'' @ e0 @ '', '' @ e1 @ '', '' @ e2 @ ''}}''
              @ [CHR 0x0A] @ ''};'')
     \<and> e0 \<noteq> [] \<and> e1 \<noteq> [] \<and> e2 \<noteq> []
     \<and> list_all (\<lambda>c. c \<notin> set ''{}, '') (e0 @ e1 @ e2)
     \<and> map_sum id (init_block \<circ> snd) (run 1000
        (C_deStructor ''typedef struct { int v[3]; } box;'' ''typedef struct { int v[3]; } box;''
           ''box b[1] = {{ {1,2,3} }};'' ''box'' ''box'' None []) [])
       = Inr (Some ''{{ {1,2,3} }}'')
     \<and> map_sum id (flat_fields \<circ> snd) (run 1000
        (C_deStructor ''typedef struct { int v[3]; } box;'' ''typedef struct { int v[3]; } box;''
           ''box b[1] = {{ {1,2,3} }};'' ''box'' ''box'' None []) [])
       = Inr [''v_0'', ''v_1'', ''v_2'']
     \<and> parse_initialization ''{{ {1,2,3} }}''
       = Inr (LList [LList [LList [LStr ''1'', LStr ''2'', LStr ''3'']]])
     \<and> flatten_initialization (LList [LList [LStr ''1'', LStr ''2'', LStr ''3'']])
       = [''1'', ''2'', ''3'']
     \<and> generate_field_map [''v_0'', ''v_1'', ''v_2''] [''1'', ''2'', ''3'']
       = [(''v'', VList [''1'', ''2'', ''3''])]"
proof (intro exI conjI)
  show "map_sum id fst (run 1000
        (C_deStructor ''typedef struct { int v[3]; } box;'' ''typedef struct { int v[3]; } box;''
           ''box b[1] = {{ {1,2,3} }};'' ''box'' ''box'' None []) [])
       = Inr ('' box b[1] = {'' @ [CHR 0x0A] @ ''{{'' @ ''0'' @ '', '' @ ''0'' @ '', '' @ ''0'' @ ''}}''
              @ [CHR 0x0A] @ ''};'')"
    by code_simp
qed code_simp+

theorem array_example_amended_witness:
  "\<exists>out. map_sum id fst (run 1000
        (C_deStructor ''typedef struct { int v[3]; } box;'' ''typedef struct { int v[3]; } box;''
           ''box b[1] = {{ {1,2,3} }};'' ''box'' ''box'' None []) []) = Inr out
   \<and> map_sum id (flat_fields \<circ> snd) (run 1000
        (C_deStructor ''typedef struct { int v[3]; } box;'' ''typedef struct { int v[3]; } box;''
           ''box b[1] = {{ {1,2,3} }};'' ''box'' ''box'' None []) [])
       = Inr [''v_0'', ''v_1'', ''v_2'']"
  using array_example_amended by blast

end
